theory Spec2Isabelle
  imports
    Main
    "HOL-Library.Sublist"
    "HOL-Library.Multiset"
    "HOL-Library.Char_ord"
    "HOL-Library.List_Lexorder"
begin

section \<open>The notes storage module\<close>

text \<open>
  A shallow embedding of the storage module of the notes application
  (\<^verbatim>\<open>initStorage\<close>, \<^verbatim>\<open>listNotes\<close>, \<^verbatim>\<open>getNote\<close>, \<^verbatim>\<open>createNote\<close>,
  \<^verbatim>\<open>updateNote\<close>, \<^verbatim>\<open>deleteNote\<close>, \<^verbatim>\<open>filterNotes\<close>, \<^verbatim>\<open>sortNotesByUpdated\<close>
  and their helpers). The browser is the environment of the module: the content of
  IndexedDB and of localStorage is an explicit \<open>storage\<close> value that every operation
  takes and returns, the readings of \<^verbatim>\<open>Date.now()\<close> and the value of the
  \<^verbatim>\<open>Math.random()\<close> expression are parameters of the operation that reads them (one
  parameter for each call, in evaluation order), and the requests of the backend that
  fail are given by a record of \<open>faults\<close>. A rejected promise is the value
  \<open>Inl StorageIOError\<close>.
\<close>

subsection \<open>Data model\<close>

text \<open>
  A note as the module writes it: five properties, the timestamps being the integer
  milliseconds of \<^verbatim>\<open>Date.now()\<close>. The property \<^verbatim>\<open>id\<close> is the field \<open>note_id\<close>
  (\<open>id\<close> is the identity function of HOL).
\<close>

record Note =
  note_id :: string
  title :: string
  content :: string
  createdAt :: int
  updatedAt :: int

text \<open>
  The \<^verbatim>\<open>updates\<close> argument of \<^verbatim>\<open>updateNote\<close>: an object holding any subset of the
  properties of a note. \<open>None\<close> is a property the object does not have.
\<close>

record updates =
  upd_id :: "string option"
  upd_title :: "string option"
  upd_content :: "string option"
  upd_createdAt :: "int option"
  upd_updatedAt :: "int option"

definition no_updates :: updates where
  "no_updates = \<lparr>upd_id = None, upd_title = None, upd_content = None,
     upd_createdAt = None, upd_updatedAt = None\<rparr>"

text \<open>An \<^verbatim>\<open>id\<close> or \<^verbatim>\<open>query\<close> argument: a string, or one of the two absent values.\<close>

datatype jsarg = JNull | JUndefined | JStr string

text \<open>The test \<^verbatim>\<open>!x\<close> on such an argument: the empty string is falsy as well.\<close>

fun falsy :: "jsarg \<Rightarrow> bool" where
  "falsy JNull = True"
| "falsy JUndefined = True"
| "falsy (JStr s) = (s = [])"

text \<open>
  What one key of localStorage holds, told apart by what the module can observe of it:
  the empty string (falsy, and \<^verbatim>\<open>JSON.parse\<close> throws on it), a string that
  \<^verbatim>\<open>JSON.parse\<close> rejects, a string that parses to something that is not an array, and
  the \<^verbatim>\<open>JSON.stringify\<close> of an array of notes, which \<^verbatim>\<open>JSON.parse\<close> reads back.
\<close>

datatype raw = EmptyString | Unparsable | NonArray | NotesJson "Note list"

text \<open>
  The browser's storage: the records of the object store \<^verbatim>\<open>notes\<close> of the database
  \<^verbatim>\<open>notes_db\<close> (key path \<^verbatim>\<open>id\<close>, so \<^verbatim>\<open>getAll\<close> gives them in key order), and
  localStorage, where \<open>None\<close> is a key that \<^verbatim>\<open>getItem\<close> answers with \<^verbatim>\<open>null\<close>.
\<close>

record storage =
  idb_notes :: "Note list"
  localStorage :: "string \<Rightarrow> raw option"

text \<open>
  The conditions of the backend during a call: whether \<^verbatim>\<open>indexedDB\<close> is in
  \<^verbatim>\<open>window\<close>, and which requests fail. A failing write leaves the stored data as it is.
\<close>

record faults =
  idb_missing :: bool
  idb_open_fails :: bool
  idb_read_fails :: bool
  idb_write_fails :: bool
  ls_get_throws :: bool
  ls_set_throws :: bool

definition no_faults :: faults where
  "no_faults = \<lparr>idb_missing = False, idb_open_fails = False, idb_read_fails = False,
     idb_write_fails = False, ls_get_throws = False, ls_set_throws = False\<rparr>"

datatype error = StorageIOError | TypeError

text \<open>The storage context that \<^verbatim>\<open>initStorage\<close> returns.\<close>

datatype ctx = IndexedDB | LocalStorage string

subsection \<open>Helpers\<close>

text \<open>The decimal text of a number inside a template literal.\<close>

definition digit_char :: "nat \<Rightarrow> char" where
  "digit_char d = char_of (48 + d)"

fun digits :: "nat \<Rightarrow> string" where
  "digits n = (if n < 10 then [digit_char n] else digits (n div 10) @ [digit_char (n mod 10)])"

declare digits.simps [simp del]

definition num_str :: "int \<Rightarrow> string" where
  "num_str i = (if i < 0 then CHR ''-'' # digits (nat (- i)) else digits (nat i))"

text \<open>
  \<^verbatim>\<open>seedSample()\<close> reads the clock three times: for the id, for \<^verbatim>\<open>createdAt\<close> and
  for \<^verbatim>\<open>updatedAt\<close>.
\<close>

definition seedSample :: "int \<Rightarrow> int \<Rightarrow> int \<Rightarrow> Note" where
  "seedSample t_id t_created t_updated =
     \<lparr>note_id = ''note_'' @ num_str t_id,
      title = ''Welcome to Notes'',
      content = ''This is your first note. Start typing to edit. Use Ctrl/Cmd+N to create a new note, Ctrl/Cmd+S to save, and Delete to remove.'',
      createdAt = t_created,
      updatedAt = t_updated\<rparr>"

definition readLS :: "faults \<Rightarrow> storage \<Rightarrow> string \<Rightarrow> Note list" where
  "readLS f s key =
     (if ls_get_throws f then []
      else case localStorage s key of
             None \<Rightarrow> []
           | Some EmptyString \<Rightarrow> []
           | Some Unparsable \<Rightarrow> []
           | Some NonArray \<Rightarrow> []
           | Some (NotesJson parsed) \<Rightarrow> parsed)"

definition writeLS :: "faults \<Rightarrow> string \<Rightarrow> Note list \<Rightarrow> storage \<Rightarrow> storage" where
  "writeLS f key data s =
     (if ls_set_throws f then s
      else s\<lparr>localStorage := (localStorage s)(key \<mapsto> NotesJson data)\<rparr>)"

text \<open>\<^verbatim>\<open>items.findIndex(p)\<close>, with \<open>None\<close> for \<open>-1\<close>.\<close>

fun findIndex :: "('a \<Rightarrow> bool) \<Rightarrow> 'a list \<Rightarrow> nat option" where
  "findIndex P [] = None"
| "findIndex P (x # xs) =
     (if P x then Some 0 else map_option Suc (findIndex P xs))"

text \<open>
  The object store: \<^verbatim>\<open>put\<close> replaces the record that has the key of the value, or
  adds the value at its place in key order; \<^verbatim>\<open>delete\<close> removes the record of a key.
\<close>

fun insert_record :: "Note \<Rightarrow> Note list \<Rightarrow> Note list" where
  "insert_record v [] = [v]"
| "insert_record v (r # rs) =
     (if note_id v < note_id r then v # r # rs else r # insert_record v rs)"

definition store_put :: "Note \<Rightarrow> Note list \<Rightarrow> Note list" where
  "store_put v rs =
     (case findIndex (\<lambda>r. note_id r = note_id v) rs of
        Some idx \<Rightarrow> rs[idx := v]
      | None \<Rightarrow> insert_record v rs)"

definition store_delete :: "string \<Rightarrow> Note list \<Rightarrow> Note list" where
  "store_delete key rs = filter (\<lambda>r. note_id r \<noteq> key) rs"

definition getAllIndexed :: "faults \<Rightarrow> storage \<Rightarrow> error + Note list" where
  "getAllIndexed f s = (if idb_read_fails f then Inl StorageIOError else Inr (idb_notes s))"

definition getIndexed :: "faults \<Rightarrow> storage \<Rightarrow> string \<Rightarrow> error + Note option" where
  "getIndexed f s key =
     (if idb_read_fails f then Inl StorageIOError
      else Inr (find (\<lambda>r. note_id r = key) (idb_notes s)))"

definition putIndexed :: "faults \<Rightarrow> Note \<Rightarrow> storage \<Rightarrow> error + storage" where
  "putIndexed f v s =
     (if idb_write_fails f then Inl StorageIOError
      else Inr (s\<lparr>idb_notes := store_put v (idb_notes s)\<rparr>))"

definition deleteIndexed :: "faults \<Rightarrow> string \<Rightarrow> storage \<Rightarrow> error + storage" where
  "deleteIndexed f key s =
     (if idb_write_fails f then Inl StorageIOError
      else Inr (s\<lparr>idb_notes := store_delete key (idb_notes s)\<rparr>))"

text \<open>
  \<^verbatim>\<open>Array.prototype.sort\<close> with a comparator: a stable sort, an element \<open>x\<close> going
  before \<open>y\<close> when \<open>cmp x y < 0\<close> and staying before an equal element it preceded.
\<close>

fun sort_insert :: "('a \<Rightarrow> 'a \<Rightarrow> int) \<Rightarrow> 'a \<Rightarrow> 'a list \<Rightarrow> 'a list" where
  "sort_insert cmp x [] = [x]"
| "sort_insert cmp x (y # ys) =
     (if cmp x y \<le> 0 then x # y # ys else y # sort_insert cmp x ys)"

fun array_sort :: "('a \<Rightarrow> 'a \<Rightarrow> int) \<Rightarrow> 'a list \<Rightarrow> 'a list" where
  "array_sort cmp [] = []"
| "array_sort cmp (x # xs) = sort_insert cmp x (array_sort cmp xs)"

text \<open>The comparator \<^verbatim>\<open>(a, b) => (b.updatedAt || 0) - (a.updatedAt || 0)\<close>.\<close>

definition or_zero :: "int \<Rightarrow> int" where
  "or_zero t = (if t = 0 then 0 else t)"

definition by_updated_desc :: "Note \<Rightarrow> Note \<Rightarrow> int" where
  "by_updated_desc a b = or_zero (updatedAt b) - or_zero (updatedAt a)"

text \<open>
  The object spread \<^verbatim>\<open>{ ...existing, ...updates, updatedAt: Date.now() }\<close>: a
  property of the updates replaces that of the existing note, and \<^verbatim>\<open>updatedAt\<close> is the
  reading of the clock whatever the updates hold.
\<close>

definition merge_note :: "Note \<Rightarrow> updates \<Rightarrow> int \<Rightarrow> Note" where
  "merge_note existing u now =
     \<lparr>note_id = (case upd_id u of None \<Rightarrow> note_id existing | Some v \<Rightarrow> v),
      title = (case upd_title u of None \<Rightarrow> title existing | Some v \<Rightarrow> v),
      content = (case upd_content u of None \<Rightarrow> content existing | Some v \<Rightarrow> v),
      createdAt = (case upd_createdAt u of None \<Rightarrow> createdAt existing | Some v \<Rightarrow> v),
      updatedAt = now\<rparr>"

subsection \<open>The operations\<close>

text \<open>
  \<^verbatim>\<open>initStorage\<close>. The first three readings of the clock are those of the
  \<^verbatim>\<open>seedSample()\<close> call on the IndexedDB path, the last three those of the call on the
  localStorage path. Every failure on the IndexedDB path is caught and leads to the
  localStorage path; a throwing localStorage is caught and logged.
\<close>

definition initLocalStorage :: "faults \<Rightarrow> int \<Rightarrow> int \<Rightarrow> int \<Rightarrow> storage \<Rightarrow> ctx \<times> storage" where
  "initLocalStorage f t_id t_created t_updated s =
     (let key = ''notes_db__notes'' in
      if ls_get_throws f then (LocalStorage key, s)
      else if localStorage s key = None \<or> localStorage s key = Some EmptyString
      then (if ls_set_throws f then (LocalStorage key, s)
            else (LocalStorage key,
                  s\<lparr>localStorage := (localStorage s)
                      (key \<mapsto> NotesJson [seedSample t_id t_created t_updated])\<rparr>))
      else (LocalStorage key, s))"

definition initStorage ::
  "faults \<Rightarrow> int \<Rightarrow> int \<Rightarrow> int \<Rightarrow> int \<Rightarrow> int \<Rightarrow> int \<Rightarrow> storage \<Rightarrow> ctx \<times> storage" where
  "initStorage f t1 t2 t3 t4 t5 t6 s =
     (if idb_missing f then initLocalStorage f t4 t5 t6 s
      else if idb_open_fails f then initLocalStorage f t4 t5 t6 s
      else case getAllIndexed f s of
             Inl e \<Rightarrow> initLocalStorage f t4 t5 t6 s
           | Inr existing \<Rightarrow>
               (if existing = []
                then (case putIndexed f (seedSample t1 t2 t3) s of
                        Inl e \<Rightarrow> initLocalStorage f t4 t5 t6 s
                      | Inr s' \<Rightarrow> (IndexedDB, s'))
                else (IndexedDB, s)))"

definition listNotes :: "faults \<Rightarrow> ctx \<Rightarrow> storage \<Rightarrow> (error + Note list) \<times> storage" where
  "listNotes f c s =
     (case c of
        IndexedDB \<Rightarrow>
          (case getAllIndexed f s of
             Inl e \<Rightarrow> (Inl e, s)
           | Inr items \<Rightarrow> (Inr (array_sort by_updated_desc items), s))
      | LocalStorage key \<Rightarrow> (Inr (array_sort by_updated_desc (readLS f s key)), s))"

definition getNote ::
  "faults \<Rightarrow> ctx \<Rightarrow> jsarg \<Rightarrow> storage \<Rightarrow> (error + Note option) \<times> storage" where
  "getNote f c i s =
     (case i of
        JStr k \<Rightarrow>
          (if k = [] then (Inr None, s)
           else case c of
                  IndexedDB \<Rightarrow> (getIndexed f s k, s)
                | LocalStorage key \<Rightarrow> (Inr (find (\<lambda>n. note_id n = k) (readLS f s key)), s))
      | _ \<Rightarrow> (Inr None, s))"

text \<open>
  \<^verbatim>\<open>createNote\<close> reads the clock three times (id, \<^verbatim>\<open>createdAt\<close>, \<^verbatim>\<open>updatedAt\<close>);
  \<open>sfx\<close> is the value of \<^verbatim>\<open>Math.random().toString(36).slice(2, 8)\<close>.
\<close>

definition new_note :: "int \<Rightarrow> int \<Rightarrow> int \<Rightarrow> string \<Rightarrow> Note" where
  "new_note t_id t_created t_updated sfx =
     \<lparr>note_id = ''note_'' @ num_str t_id @ ''_'' @ sfx,
      title = ''Untitled'',
      content = [],
      createdAt = t_created,
      updatedAt = t_updated\<rparr>"

definition createNote ::
  "faults \<Rightarrow> int \<Rightarrow> int \<Rightarrow> int \<Rightarrow> string \<Rightarrow> ctx \<Rightarrow> storage \<Rightarrow> (error + Note) \<times> storage" where
  "createNote f t_id t_created t_updated sfx c s =
     (let note = new_note t_id t_created t_updated sfx in
      case c of
        IndexedDB \<Rightarrow>
          (case putIndexed f note s of
             Inl e \<Rightarrow> (Inl e, s)
           | Inr s' \<Rightarrow> (Inr note, s'))
      | LocalStorage key \<Rightarrow>
          (let items = readLS f s key
           in (Inr note, writeLS f key (items @ [note]) s)))"

definition updateNote ::
  "faults \<Rightarrow> int \<Rightarrow> ctx \<Rightarrow> jsarg \<Rightarrow> updates \<Rightarrow> storage \<Rightarrow> (error + Note option) \<times> storage" where
  "updateNote f now c i u s =
     (case i of
        JStr k \<Rightarrow>
          (if k = [] then (Inr None, s)
           else case c of
                  IndexedDB \<Rightarrow>
                    (case getIndexed f s k of
                       Inl e \<Rightarrow> (Inl e, s)
                     | Inr None \<Rightarrow> (Inr None, s)
                     | Inr (Some existing) \<Rightarrow>
                         (let next = merge_note existing u now in
                          case putIndexed f next s of
                            Inl e \<Rightarrow> (Inl e, s)
                          | Inr s' \<Rightarrow> (Inr (Some next), s')))
                | LocalStorage key \<Rightarrow>
                    (let items = readLS f s key in
                     case findIndex (\<lambda>n. note_id n = k) items of
                       None \<Rightarrow> (Inr None, s)
                     | Some idx \<Rightarrow>
                         (let next = merge_note (items ! idx) u now
                          in (Inr (Some next), writeLS f key (items[idx := next]) s))))
      | _ \<Rightarrow> (Inr None, s))"

definition deleteNote :: "faults \<Rightarrow> ctx \<Rightarrow> jsarg \<Rightarrow> storage \<Rightarrow> (error + unit) \<times> storage" where
  "deleteNote f c i s =
     (case i of
        JStr k \<Rightarrow>
          (if k = [] then (Inr (), s)
           else case c of
                  IndexedDB \<Rightarrow>
                    (case deleteIndexed f k s of
                       Inl e \<Rightarrow> (Inl e, s)
                     | Inr s' \<Rightarrow> (Inr (), s'))
                | LocalStorage key \<Rightarrow>
                    (let items = readLS f s key;
                         next = filter (\<lambda>n. note_id n \<noteq> k) items
                     in (Inr (), writeLS f key next s)))
      | _ \<Rightarrow> (Inr (), s))"

text \<open>The collection a context reaches: what \<^verbatim>\<open>getAll\<close> or \<^verbatim>\<open>readLS\<close> gives.\<close>

definition stored :: "faults \<Rightarrow> ctx \<Rightarrow> storage \<Rightarrow> Note list" where
  "stored f c s = (case c of IndexedDB \<Rightarrow> idb_notes s | LocalStorage key \<Rightarrow> readLS f s key)"

subsection \<open>Sequences of operations\<close>

text \<open>
  The calls a client makes on one context, with the values each call reads from the
  clock and from the random generator.
\<close>

datatype op = Create int int int string | Update jsarg updates int | Delete jsarg

text \<open>
  Beside the storage, a run keeps a ledger of the creations: for the id of each note
  that \<^verbatim>\<open>createNote\<close> returned, the \<^verbatim>\<open>createdAt\<close> it was given.
\<close>

type_synonym ledger = "string \<Rightarrow> int option"

fun step :: "faults \<Rightarrow> ctx \<Rightarrow> op \<Rightarrow> ledger \<times> storage \<Rightarrow> ledger \<times> storage" where
  "step f c (Create t_id t_created t_updated sfx) (lg, s) =
     (case createNote f t_id t_created t_updated sfx c s of
        (Inr n, s') \<Rightarrow> (lg(note_id n \<mapsto> createdAt n), s')
      | (Inl e, s') \<Rightarrow> (lg, s'))"
| "step f c (Update i u now) (lg, s) = (lg, snd (updateNote f now c i u s))"
| "step f c (Delete i) (lg, s) = (lg, snd (deleteNote f c i s))"

fun run :: "faults \<Rightarrow> ctx \<Rightarrow> op list \<Rightarrow> ledger \<times> storage \<Rightarrow> ledger \<times> storage" where
  "run f c [] st = st"
| "run f c (x # xs) st = run f c xs (step f c x st)"

text \<open>
  The invariant of the data model on a collection: the ids are unique, and every note
  has the id and the \<^verbatim>\<open>createdAt\<close> of a creation the ledger records.
\<close>

definition as_created :: "ledger \<Rightarrow> Note list \<Rightarrow> bool" where
  "as_created lg xs =
     (distinct (map note_id xs) \<and> list_all (\<lambda>n. lg (note_id n) = Some (createdAt n)) xs)"

text \<open>
  The runs in which every \<^verbatim>\<open>updateNote\<close> supplies neither \<^verbatim>\<open>id\<close> nor
  \<^verbatim>\<open>createdAt\<close>, and every \<^verbatim>\<open>createNote\<close> draws an id that no stored note has.
\<close>

fun admissible :: "faults \<Rightarrow> ctx \<Rightarrow> op list \<Rightarrow> storage \<Rightarrow> bool" where
  "admissible f c [] s = True"
| "admissible f c (Create t_id t_created t_updated sfx # xs) s =
     (list_all (\<lambda>n. note_id n \<noteq> note_id (new_note t_id t_created t_updated sfx)) (stored f c s) \<and>
      admissible f c xs (snd (createNote f t_id t_created t_updated sfx c s)))"
| "admissible f c (Update i u now # xs) s =
     (upd_id u = None \<and> upd_createdAt u = None \<and>
      admissible f c xs (snd (updateNote f now c i u s)))"
| "admissible f c (Delete i # xs) s = admissible f c xs (snd (deleteNote f c i s))"

text \<open>The id is not the id of a stored note.\<close>

definition id_absent :: "jsarg \<Rightarrow> Note list \<Rightarrow> bool" where
  "id_absent i xs = list_all (\<lambda>n. JStr (note_id n) \<noteq> i) xs"

subsection \<open>The query and sort utilities\<close>

text \<open>
  \<^verbatim>\<open>filterNotes\<close> and \<^verbatim>\<open>sortNotesByUpdated\<close> take and return arrays, which are
  objects: whether the result is the argument itself, and whether the argument is
  changed, is visible to the caller. The arrays live in a heap, an array being the
  list at its address; \<open>alloc\<close> makes a new array.
\<close>

type_synonym heap = "Note list list"

definition array_at :: "heap \<Rightarrow> nat \<Rightarrow> Note list option" where
  "array_at h a = (if a < length h then Some (h ! a) else None)"

definition alloc :: "Note list \<Rightarrow> heap \<Rightarrow> nat \<times> heap" where
  "alloc xs h = (length h, h @ [xs])"

text \<open>
  Text. A JavaScript string is held here in UTF-8, a character of the model being a
  byte: for well-formed text one string occurs in another exactly when its bytes are a
  stretch of the bytes of the other, so \<^verbatim>\<open>includes\<close> is containment of lists.

  \<^verbatim>\<open>String.prototype.toLowerCase\<close> is a function of the language, not of this
  module. It follows the case mappings of Unicode, the rules that look at the context
  included (a capital sigma that ends a word gets the final form), and it may change
  the length of a string. The functions that call it take it as the parameter \<open>lc\<close>,
  and nothing is assumed of it.
\<close>





text \<open>
  \<^verbatim>\<open>[...notes]\<close> makes a new array with the elements of \<^verbatim>\<open>notes\<close>; \<^verbatim>\<open>sort\<close> sorts
  that array in place and returns it.
\<close>

definition sortNotesByUpdated :: "heap \<Rightarrow> nat \<Rightarrow> error + nat \<times> heap" where
  "sortNotesByUpdated h notes =
     (case array_at h notes of
        None \<Rightarrow> Inl TypeError
      | Some xs \<Rightarrow>
          (let (c, h1) = alloc xs h
           in Inr (c, h1[c := array_sort by_updated_desc (h1 ! c)])))"







text \<open>A list in non-increasing order of \<^verbatim>\<open>updatedAt\<close>.\<close>

definition recent_first :: "Note list \<Rightarrow> bool" where
  "recent_first ys = sorted_wrt (\<lambda>a b. updatedAt b \<le> updatedAt a) ys"

subsection \<open>Sample data\<close>

text \<open>Three notes and a heap holding one array of them, for the concrete instances.\<close>

definition note_a :: Note where
  "note_a = \<lparr>note_id = ''note_1'', title = ''Shopping list'', content = ''milk'',
     createdAt = 1, updatedAt = 4\<rparr>"

definition note_b :: Note where
  "note_b = \<lparr>note_id = ''note_2'', title = ''Untitled'', content = ''call the workshop'',
     createdAt = 2, updatedAt = 9\<rparr>"

definition note_c :: Note where
  "note_c = \<lparr>note_id = ''note_3'', title = ''Ideas'', content = [],
     createdAt = 3, updatedAt = 4\<rparr>"

definition heap_abc :: heap where
  "heap_abc = [[note_a, note_b, note_c]]"






definition ls_key :: string where
  "ls_key = ''notes_db__notes''"

definition no_items :: "string \<Rightarrow> raw option" where
  "no_items = (\<lambda>k. None)"

definition empty_storage :: storage where
  "empty_storage = \<lparr>idb_notes = [], localStorage = no_items\<rparr>"

text \<open>localStorage after the last note was deleted, and with text that does not parse.\<close>

definition storage_emptied :: storage where
  "storage_emptied = \<lparr>idb_notes = [], localStorage = no_items(ls_key \<mapsto> NotesJson [])\<rparr>"

definition storage_garbled :: storage where
  "storage_garbled = \<lparr>idb_notes = [], localStorage = no_items(ls_key \<mapsto> Unparsable)\<rparr>"

definition no_creations :: ledger where
  "no_creations = (\<lambda>k. None)"

definition storage_abc :: storage where
  "storage_abc = \<lparr>idb_notes = [note_a, note_b, note_c],
     localStorage = no_items(ls_key \<mapsto> NotesJson [note_a, note_b, note_c])\<rparr>"

section \<open>Sorting by recency\<close>

lemma mset_sort_insert: "mset (sort_insert cmp x ys) = add_mset x (mset ys)"
  by (induction ys) auto

lemma mset_array_sort: "mset (array_sort cmp xs) = mset xs"
  by (induction xs) (auto simp: mset_sort_insert)

lemma set_sort_insert: "set (sort_insert cmp x ys) = insert x (set ys)"
  by (induction ys) auto

lemma set_array_sort: "set (array_sort cmp xs) = set xs"
  by (induction xs) (auto simp: set_sort_insert)

lemma recent_first_insert:
  "recent_first ys \<Longrightarrow> recent_first (sort_insert by_updated_desc x ys)"
  by (induction ys) (auto simp: recent_first_def set_sort_insert by_updated_desc_def or_zero_def)

lemma recent_first_array_sort: "recent_first (array_sort by_updated_desc xs)"
proof (induction xs)
  case Nil
  show ?case by (simp add: recent_first_def)
next
  case (Cons x xs)
  then show ?case by (simp add: recent_first_insert)
qed

text \<open>
  Stability: inserting into a list that is already in order keeps the new element
  before the elements of the same \<^verbatim>\<open>updatedAt\<close>.
\<close>

lemma filter_sort_insert:
  "recent_first ys \<Longrightarrow>
   filter (\<lambda>n. updatedAt n = k) (sort_insert by_updated_desc x ys) =
   (if updatedAt x = k then x # filter (\<lambda>n. updatedAt n = k) ys
    else filter (\<lambda>n. updatedAt n = k) ys)"
  by (induction ys) (auto simp: recent_first_def by_updated_desc_def or_zero_def)

lemma stable_array_sort:
  "filter (\<lambda>n. updatedAt n = k) (array_sort by_updated_desc xs) =
   filter (\<lambda>n. updatedAt n = k) xs"
  by (induction xs) (auto simp: filter_sort_insert recent_first_array_sort)

lemma sortNotesByUpdated_result:
  "array_at h notes = Some xs \<Longrightarrow>
   sortNotesByUpdated h notes =
     Inr (length h, h @ [array_sort by_updated_desc xs])"
  by (simp add: sortNotesByUpdated_def alloc_def)

text \<open>
  Claim C7. For every array of notes, \<^verbatim>\<open>sortNotesByUpdated\<close> returns a stable
  permutation of it in descending order of \<^verbatim>\<open>updatedAt\<close>: the result is a new array
  that has the elements of the input (with their multiplicities), its \<^verbatim>\<open>updatedAt\<close>
  values never increase, and for every timestamp the notes of that timestamp stand in
  the order they had in the input. The input array, and every other array that existed
  before the call, is left as it was.
\<close>

theorem sortNotesByUpdated_stable_sort:
  assumes "array_at h notes = Some xs"
  shows "\<exists>r h' ys. sortNotesByUpdated h notes = Inr (r, h') \<and>
           r \<noteq> notes \<and>
           array_at h' notes = Some xs \<and>
           (\<forall>a < length h. array_at h' a = array_at h a) \<and>
           array_at h' r = Some ys \<and>
           mset ys = mset xs \<and>
           recent_first ys \<and>
           (\<forall>k. filter (\<lambda>n. updatedAt n = k) ys = filter (\<lambda>n. updatedAt n = k) xs)"
proof -
  from assms have valid: "notes < length h" and xs: "h ! notes = xs"
    by (auto simp: array_at_def split: if_splits)
  let ?ys = "array_sort by_updated_desc xs"
  let ?h' = "h @ [?ys]"
  have "sortNotesByUpdated h notes = Inr (length h, ?h')"
    using assms by (rule sortNotesByUpdated_result)
  moreover have "length h \<noteq> notes" using valid by simp
  moreover have "array_at ?h' notes = Some xs"
    using valid xs by (simp add: array_at_def nth_append)
  moreover have "\<forall>a < length h. array_at ?h' a = array_at h a"
    by (simp add: array_at_def nth_append)
  moreover have "array_at ?h' (length h) = Some ?ys"
    by (simp add: array_at_def)
  moreover have "mset ?ys = mset xs" by (rule mset_array_sort)
  moreover have "recent_first ?ys" by (rule recent_first_array_sort)
  moreover have "\<forall>k. filter (\<lambda>n. updatedAt n = k) ?ys = filter (\<lambda>n. updatedAt n = k) xs"
    by (simp add: stable_array_sort)
  ultimately show ?thesis by blast
qed

theorem sortNotesByUpdated_stable_sort_witness:
  "array_at heap_abc 0 = Some [note_a, note_b, note_c] \<and>
   sortNotesByUpdated heap_abc 0 = Inr (1, [[note_a, note_b, note_c], [note_b, note_a, note_c]]) \<and>
   (\<exists>r h' ys. sortNotesByUpdated heap_abc 0 = Inr (r, h') \<and>
           r \<noteq> 0 \<and>
           array_at h' 0 = Some [note_a, note_b, note_c] \<and>
           (\<forall>a < length heap_abc. array_at h' a = array_at heap_abc a) \<and>
           array_at h' r = Some ys \<and>
           mset ys = mset [note_a, note_b, note_c] \<and>
           recent_first ys \<and>
           (\<forall>k. filter (\<lambda>n. updatedAt n = k) ys =
                filter (\<lambda>n. updatedAt n = k) [note_a, note_b, note_c]))"
proof -
  have h: "array_at heap_abc 0 = Some [note_a, note_b, note_c]"
    by (simp add: array_at_def heap_abc_def)
  have run: "sortNotesByUpdated heap_abc 0
      = Inr (1, [[note_a, note_b, note_c], [note_b, note_a, note_c]])"
    by (simp add: sortNotesByUpdated_def array_at_def alloc_def heap_abc_def
          by_updated_desc_def or_zero_def note_a_def note_b_def note_c_def)
  from h run sortNotesByUpdated_stable_sort [OF h] show ?thesis by simp
qed

section \<open>Filtering by a query\<close>

















section \<open>Absent id arguments\<close>

text \<open>
  Claim C10. When the id argument is absent (\<^verbatim>\<open>null\<close>, \<^verbatim>\<open>undefined\<close> or the empty
  string), \<^verbatim>\<open>getNote\<close> and \<^verbatim>\<open>updateNote\<close> return \<^verbatim>\<open>null\<close> and \<^verbatim>\<open>deleteNote\<close> returns
  without effect; the storage is left exactly as it was, for every context and whatever
  the backend does.
\<close>

theorem absent_id_no_effect:
  "falsy i \<longrightarrow>
     getNote f c i s = (Inr None, s) \<and>
     updateNote f now c i u s = (Inr None, s) \<and>
     deleteNote f c i s = (Inr (), s)"
  by (cases i) (simp_all add: getNote_def updateNote_def deleteNote_def)

theorem absent_id_no_effect_witness:
  "falsy (JStr []) \<and>
   getNote no_faults (LocalStorage ''k'') (JStr []) empty_storage
     = (Inr None, empty_storage) \<and>
   updateNote no_faults 5 IndexedDB (JStr []) no_updates empty_storage
     = (Inr None, empty_storage) \<and>
   deleteNote no_faults IndexedDB (JStr []) empty_storage
     = (Inr (), empty_storage)"
  using absent_id_no_effect
    [of "JStr []" no_faults "LocalStorage ''k''" "empty_storage"]
    absent_id_no_effect
    [of "JStr []" no_faults IndexedDB "empty_storage" 5 no_updates]
  by simp

section \<open>Updating a note\<close>

lemma findIndex_None_iff: "findIndex P xs = None \<longleftrightarrow> (\<forall>x \<in> set xs. \<not> P x)"
  by (induction xs) auto

lemma findIndex_Some:
  "findIndex P xs = Some i \<Longrightarrow> i < length xs \<and> P (xs ! i)"
  by (induction xs arbitrary: i) (auto split: if_splits)

lemma find_findIndex: "find P xs = map_option (\<lambda>i. xs ! i) (findIndex P xs)"
  by (induction xs) (auto simp: option.map_comp comp_def)

lemma id_absent_find: "id_absent (JStr k) xs \<Longrightarrow> find (\<lambda>n. note_id n = k) xs = None"
  by (auto simp: id_absent_def list_all_iff find_None_iff)

lemma id_absent_findIndex: "id_absent (JStr k) xs \<Longrightarrow> findIndex (\<lambda>n. note_id n = k) xs = None"
  by (auto simp: id_absent_def list_all_iff findIndex_None_iff)

text \<open>
  Claim C3. For every context and every id that no stored note has, \<^verbatim>\<open>updateNote\<close>
  leaves the storage exactly as it was (so the collection keeps its size) and returns
  \<^verbatim>\<open>null\<close>. The one other outcome is that of a backend that cannot be read: a failing
  IndexedDB request rejects the call, the storage still unchanged.
\<close>

theorem updateNote_absent_id:
  "id_absent i (stored f c s) \<longrightarrow>
     snd (updateNote f now c i u s) = s \<and>
     length (stored f c (snd (updateNote f now c i u s))) = length (stored f c s) \<and>
     (\<not> idb_read_fails f \<longrightarrow> updateNote f now c i u s = (Inr None, s))"
proof
  assume a: "id_absent i (stored f c s)"
  show "snd (updateNote f now c i u s) = s \<and>
     length (stored f c (snd (updateNote f now c i u s))) = length (stored f c s) \<and>
     (\<not> idb_read_fails f \<longrightarrow> updateNote f now c i u s = (Inr None, s))"
  proof (cases i)
    case (JStr k)
    show ?thesis
    proof (cases c)
      case IndexedDB
      with a JStr have "find (\<lambda>n. note_id n = k) (idb_notes s) = None"
        by (simp add: stored_def id_absent_find)
      with JStr IndexedDB show ?thesis
        by (simp add: updateNote_def getIndexed_def)
    next
      case (LocalStorage key)
      with a JStr have "findIndex (\<lambda>n. note_id n = k) (readLS f s key) = None"
        by (simp add: stored_def id_absent_findIndex)
      with JStr LocalStorage show ?thesis
        by (simp add: updateNote_def)
    qed
  qed (simp_all add: updateNote_def)
qed

theorem updateNote_absent_id_witness:
  "id_absent (JStr ''note_7'') (stored no_faults IndexedDB storage_abc) \<and>
   id_absent (JStr ''note_7'') (stored no_faults (LocalStorage ls_key) storage_abc) \<and>
   updateNote no_faults 50 IndexedDB (JStr ''note_7'') (no_updates\<lparr>upd_title := Some ''x''\<rparr>) storage_abc
     = (Inr None, storage_abc) \<and>
   updateNote no_faults 50 (LocalStorage ls_key) (JStr ''note_7'') (no_updates\<lparr>upd_title := Some ''x''\<rparr>) storage_abc
     = (Inr None, storage_abc)"
proof -
  have 1: "id_absent (JStr ''note_7'') (stored no_faults IndexedDB storage_abc)"
    by (simp add: id_absent_def stored_def storage_abc_def note_a_def note_b_def note_c_def)
  have 2: "id_absent (JStr ''note_7'') (stored no_faults (LocalStorage ls_key) storage_abc)"
    by (simp add: id_absent_def stored_def storage_abc_def readLS_def no_faults_def
          note_a_def note_b_def note_c_def)
  have 3: "\<not> idb_read_fails no_faults" by (simp add: no_faults_def)
  from 1 2 3
    updateNote_absent_id [of "JStr ''note_7''" no_faults IndexedDB storage_abc 50
                             "no_updates\<lparr>upd_title := Some ''x''\<rparr>"]
    updateNote_absent_id [of "JStr ''note_7''" no_faults "LocalStorage ls_key" storage_abc 50
                             "no_updates\<lparr>upd_title := Some ''x''\<rparr>"]
  show ?thesis by simp
qed

lemma merge_note_title:
  "merge_note e (no_updates\<lparr>upd_title := Some T\<rparr>) now = e\<lparr>title := T, updatedAt := now\<rparr>"
  by (simp add: merge_note_def no_updates_def)

lemma merge_note_keeps:
  "upd_id u = None \<Longrightarrow> note_id (merge_note e u now) = note_id e"
  "upd_createdAt u = None \<Longrightarrow> createdAt (merge_note e u now) = createdAt e"
  by (simp_all add: merge_note_def)

lemma stored_writeLS:
  "stored f (LocalStorage key) (writeLS f key data s) =
     (if ls_set_throws f then stored f (LocalStorage key) s
      else if ls_get_throws f then [] else data)"
  by (simp add: stored_def writeLS_def readLS_def)

lemma findIndex_readLS:
  "findIndex P (readLS f s key) = Some idx \<Longrightarrow> \<not> ls_get_throws f"
  by (auto simp: readLS_def)

text \<open>
  What \<^verbatim>\<open>updateNote\<close> does when it is given an id that some stored note has and the
  updates do not name the \<^verbatim>\<open>id\<close>: the first note of that id is replaced by the merge.
\<close>

lemma updateNote_found:
  assumes idx: "findIndex (\<lambda>n. note_id n = k) (stored f c s) = Some idx"
    and k: "k \<noteq> []" and u: "upd_id u = None"
  shows "updateNote f now c (JStr k) u s =
     (case c of
        IndexedDB \<Rightarrow>
          if idb_read_fails f \<or> idb_write_fails f then (Inl StorageIOError, s)
          else (Inr (Some (merge_note (stored f c s ! idx) u now)),
                s\<lparr>idb_notes := (idb_notes s)[idx := merge_note (stored f c s ! idx) u now]\<rparr>)
      | LocalStorage key \<Rightarrow>
          (Inr (Some (merge_note (stored f c s ! idx) u now)),
           writeLS f key ((stored f c s)[idx := merge_note (stored f c s ! idx) u now]) s))"
proof (cases c)
  case IndexedDB
  from idx IndexedDB have fi: "findIndex (\<lambda>n. note_id n = k) (idb_notes s) = Some idx"
    by (simp add: stored_def)
  then have at: "note_id (idb_notes s ! idx) = k"
    by (auto dest: findIndex_Some)
  have "store_put (merge_note (idb_notes s ! idx) u now) (idb_notes s) =
      (idb_notes s)[idx := merge_note (idb_notes s ! idx) u now]"
    using fi at u by (simp add: store_put_def merge_note_keeps)
  with IndexedDB fi k show ?thesis
    by (simp add: updateNote_def getIndexed_def putIndexed_def find_findIndex stored_def Let_def)
next
  case (LocalStorage key)
  with idx k show ?thesis
    by (simp add: updateNote_def stored_def Let_def)
qed

lemma updateNote_not_found:
  assumes "findIndex (\<lambda>n. note_id n = k) (stored f c s) = None"
  shows "snd (updateNote f now c (JStr k) u s) = s"
  using assms
  by (cases c) (simp_all add: updateNote_def stored_def getIndexed_def find_findIndex)

lemma updateNote_stored:
  assumes u: "upd_id u = None"
  shows "stored f c (snd (updateNote f now c (JStr k) u s)) = stored f c s \<or>
     (\<exists>idx. findIndex (\<lambda>n. note_id n = k) (stored f c s) = Some idx \<and>
        stored f c (snd (updateNote f now c (JStr k) u s)) =
          (stored f c s)[idx := merge_note (stored f c s ! idx) u now])"
proof (cases "k = []")
  case True
  then show ?thesis by (simp add: updateNote_def)
next
  case False
  show ?thesis
  proof (cases "findIndex (\<lambda>n. note_id n = k) (stored f c s)")
    case None
    then show ?thesis by (simp add: updateNote_not_found)
  next
    case (Some idx)
    note found = updateNote_found [OF Some False u, of now]
    show ?thesis
    proof (cases c)
      case IndexedDB
      with found Some show ?thesis by (auto simp: stored_def)
    next
      case (LocalStorage key)
      from Some LocalStorage have "\<not> ls_get_throws f"
        by (auto simp: stored_def dest: findIndex_readLS)
      with found Some LocalStorage show ?thesis
        by (auto simp: stored_writeLS)
    qed
  qed
qed

text \<open>
  Claim C4. Calling \<^verbatim>\<open>updateNote\<close> with the partial fields \<^verbatim>\<open>{title: T}\<close> changes
  nothing but the title and the \<^verbatim>\<open>updatedAt\<close> of the note that has the id: the collection
  keeps its length, every note in it is either the note that was there or, for a note of
  that id, that note with the new title and \<^verbatim>\<open>updatedAt\<close> (its id, content and
  \<^verbatim>\<open>createdAt\<close> as before); and when the id is present and the backend answers, the
  first note of that id is replaced so and returned.
\<close>

theorem updateNote_title_only:
  "(let xs = stored f c s;
        r = updateNote f now c (JStr k) (no_updates\<lparr>upd_title := Some T\<rparr>) s;
        xs' = stored f c (snd r)
    in length xs' = length xs \<and>
       (\<forall>j < length xs.
          xs' ! j = xs ! j \<or>
          (note_id (xs ! j) = k \<and> xs' ! j = (xs ! j)\<lparr>title := T, updatedAt := now\<rparr>)) \<and>
       (\<forall>idx. k \<noteq> [] \<and> findIndex (\<lambda>n. note_id n = k) xs = Some idx \<and>
              \<not> idb_read_fails f \<and> \<not> idb_write_fails f \<and> \<not> ls_set_throws f \<longrightarrow>
          fst r = Inr (Some ((xs ! idx)\<lparr>title := T, updatedAt := now\<rparr>)) \<and>
          xs' = xs[idx := (xs ! idx)\<lparr>title := T, updatedAt := now\<rparr>]))"
proof -
  let ?u = "no_updates\<lparr>upd_title := Some T\<rparr>"
  let ?xs = "stored f c s"
  let ?r = "updateNote f now c (JStr k) ?u s"
  let ?xs' = "stored f c (snd ?r)"
  have u: "upd_id ?u = None" by (simp add: no_updates_def)
  from updateNote_stored [OF u, of f c now k s]
  have shape: "?xs' = ?xs \<or>
     (\<exists>idx. findIndex (\<lambda>n. note_id n = k) ?xs = Some idx \<and>
        ?xs' = ?xs[idx := (?xs ! idx)\<lparr>title := T, updatedAt := now\<rparr>])"
    by (simp add: merge_note_title)
  then have len: "length ?xs' = length ?xs" by auto
  have frame: "\<forall>j < length ?xs.
          ?xs' ! j = ?xs ! j \<or>
          (note_id (?xs ! j) = k \<and> ?xs' ! j = (?xs ! j)\<lparr>title := T, updatedAt := now\<rparr>)"
  proof (intro allI impI)
    fix j assume j: "j < length ?xs"
    from shape show "?xs' ! j = ?xs ! j \<or>
          (note_id (?xs ! j) = k \<and> ?xs' ! j = (?xs ! j)\<lparr>title := T, updatedAt := now\<rparr>)"
    proof
      assume "?xs' = ?xs" then show ?thesis by simp
    next
      assume "\<exists>idx. findIndex (\<lambda>n. note_id n = k) ?xs = Some idx \<and>
        ?xs' = ?xs[idx := (?xs ! idx)\<lparr>title := T, updatedAt := now\<rparr>]"
      then obtain idx where fi: "findIndex (\<lambda>n. note_id n = k) ?xs = Some idx"
        and eq: "?xs' = ?xs[idx := (?xs ! idx)\<lparr>title := T, updatedAt := now\<rparr>]" by blast
      from fi have "note_id (?xs ! idx) = k" by (auto dest: findIndex_Some)
      with eq j show ?thesis by (cases "j = idx") simp_all
    qed
  qed
  have succ: "\<forall>idx. k \<noteq> [] \<and> findIndex (\<lambda>n. note_id n = k) ?xs = Some idx \<and>
              \<not> idb_read_fails f \<and> \<not> idb_write_fails f \<and> \<not> ls_set_throws f \<longrightarrow>
          fst ?r = Inr (Some ((?xs ! idx)\<lparr>title := T, updatedAt := now\<rparr>)) \<and>
          ?xs' = ?xs[idx := (?xs ! idx)\<lparr>title := T, updatedAt := now\<rparr>]"
  proof (intro allI impI, elim conjE)
    fix idx
    assume k: "k \<noteq> []" and fi: "findIndex (\<lambda>n. note_id n = k) ?xs = Some idx"
      and ok: "\<not> idb_read_fails f" "\<not> idb_write_fails f" "\<not> ls_set_throws f"
    note found = updateNote_found [OF fi k u, of now]
    show "fst ?r = Inr (Some ((?xs ! idx)\<lparr>title := T, updatedAt := now\<rparr>)) \<and>
          ?xs' = ?xs[idx := (?xs ! idx)\<lparr>title := T, updatedAt := now\<rparr>]"
    proof (cases c)
      case IndexedDB
      with found ok show ?thesis by (simp add: merge_note_title stored_def)
    next
      case (LocalStorage key)
      from fi LocalStorage have "\<not> ls_get_throws f"
        by (auto simp: stored_def dest: findIndex_readLS)
      with found ok LocalStorage show ?thesis
        by (simp add: merge_note_title stored_writeLS)
    qed
  qed
  from len frame succ show ?thesis by (simp only: Let_def)
qed


theorem updateNote_title_only_witness:
  "(let xs = stored no_faults IndexedDB storage_abc;
        r = updateNote no_faults 50 IndexedDB (JStr ''note_2'')
              (no_updates\<lparr>upd_title := Some ''Plans''\<rparr>) storage_abc;
        xs' = stored no_faults IndexedDB (snd r)
    in xs = [note_a, note_b, note_c] \<and>
       findIndex (\<lambda>n. note_id n = ''note_2'') xs = Some 1 \<and>
       fst r = Inr (Some (note_b\<lparr>title := ''Plans'', updatedAt := 50\<rparr>)) \<and>
       xs' = [note_a, note_b\<lparr>title := ''Plans'', updatedAt := 50\<rparr>, note_c])"
proof -
  have xs: "stored no_faults IndexedDB storage_abc = [note_a, note_b, note_c]"
    by (simp add: stored_def storage_abc_def)
  have fi: "findIndex (\<lambda>n. note_id n = ''note_2'') [note_a, note_b, note_c] = Some 1"
    by (simp add: note_a_def note_b_def note_c_def)
  have ok: "\<not> idb_read_fails no_faults" "\<not> idb_write_fails no_faults" "\<not> ls_set_throws no_faults"
    by (simp_all add: no_faults_def)
  from xs fi ok
    updateNote_title_only [of no_faults IndexedDB storage_abc 50 "''note_2''" "''Plans''"]
  show ?thesis by (simp add: Let_def)
qed

section \<open>Deleting a note\<close>

lemma deleteNote_LocalStorage:
  "k \<noteq> [] \<Longrightarrow>
   deleteNote f (LocalStorage key) (JStr k) s =
     (Inr (), writeLS f key (filter (\<lambda>n. note_id n \<noteq> k) (readLS f s key)) s)"
  by (simp add: deleteNote_def)

lemma deleteNote_IndexedDB:
  "k \<noteq> [] \<Longrightarrow>
   deleteNote f IndexedDB (JStr k) s =
     (if idb_write_fails f then (Inl StorageIOError, s)
      else (Inr (), s\<lparr>idb_notes := filter (\<lambda>n. note_id n \<noteq> k) (idb_notes s)\<rparr>))"
  by (simp add: deleteNote_def deleteIndexed_def store_delete_def)

lemma readLS_writeLS:
  "readLS f (writeLS f key data s) key =
     (if ls_get_throws f then [] else if ls_set_throws f then readLS f s key else data)"
  by (simp add: readLS_def writeLS_def)

lemma readLS_throws: "ls_get_throws f \<Longrightarrow> readLS f s key = []"
  by (simp add: readLS_def)

lemma deleteNote_twice_LocalStorage:
  assumes "k \<noteq> []"
  shows "deleteNote f (LocalStorage key) (JStr k) (snd (deleteNote f (LocalStorage key) (JStr k) s)) =
     deleteNote f (LocalStorage key) (JStr k) s"
proof (cases "ls_set_throws f")
  case True
  with assms show ?thesis by (simp add: deleteNote_LocalStorage writeLS_def)
next
  case False
  with assms show ?thesis
    by (simp add: deleteNote_LocalStorage writeLS_def readLS_def)
qed

lemma deleteNote_twice:
  "deleteNote f c i (snd (deleteNote f c i s)) = deleteNote f c i s"
proof (cases "falsy i")
  case True
  then have "deleteNote f c i s = (Inr (), s)" for s
    by (cases i) (simp_all add: deleteNote_def)
  then show ?thesis by simp
next
  case False
  then obtain k where k: "i = JStr k" "k \<noteq> []" by (cases i) simp_all
  show ?thesis
  proof (cases c)
    case IndexedDB
    with k show ?thesis by (simp add: deleteNote_IndexedDB)
  next
    case (LocalStorage key)
    with k show ?thesis by (simp add: deleteNote_twice_LocalStorage)
  qed
qed

lemma filter_id_absent:
  "id_absent (JStr k) xs \<Longrightarrow> filter (\<lambda>n. note_id n \<noteq> k) xs = xs"
  by (induction xs) (auto simp: id_absent_def)

lemma deleteNote_absent:
  assumes "id_absent i (stored f c s)" "\<not> idb_write_fails f"
  shows "fst (deleteNote f c i s) = Inr () \<and> stored f c (snd (deleteNote f c i s)) = stored f c s"
proof (cases "falsy i")
  case True
  then have "deleteNote f c i s = (Inr (), s)"
    by (cases i) (simp_all add: deleteNote_def)
  then show ?thesis by simp
next
  case False
  then obtain k where k: "i = JStr k" "k \<noteq> []" by (cases i) simp_all
  show ?thesis
  proof (cases c)
    case IndexedDB
    with k assms show ?thesis
      by (simp add: deleteNote_IndexedDB stored_def filter_id_absent)
  next
    case (LocalStorage key)
    with k assms show ?thesis
      by (auto simp: deleteNote_LocalStorage stored_def filter_id_absent readLS_writeLS readLS_throws)
  qed
qed

lemma deleteNote_removes:
  assumes "\<not> falsy i" "\<not> idb_write_fails f" "\<not> ls_set_throws f"
  shows "fst (deleteNote f c i s) = Inr () \<and>
         stored f c (snd (deleteNote f c i s)) =
           filter (\<lambda>n. JStr (note_id n) \<noteq> i) (stored f c s)"
proof -
  from assms(1) obtain k where k: "i = JStr k" "k \<noteq> []" by (cases i) simp_all
  show ?thesis
  proof (cases c)
    case IndexedDB
    with k assms show ?thesis
      by (simp add: deleteNote_IndexedDB stored_def)
  next
    case (LocalStorage key)
    with k assms show ?thesis
      by (auto simp: deleteNote_LocalStorage stored_def readLS_writeLS readLS_throws)
  qed
qed

text \<open>
  Claim C9. \<^verbatim>\<open>deleteNote\<close> is idempotent: a second call with the same id returns what
  the first returned and leaves the storage that the first call left. On an id that no
  stored note has, the call succeeds and the collection stays as it was; the only error a
  call can give is that of a failing IndexedDB write request. When the writes go through,
  the collection after the call is the collection without the notes of that id.
\<close>

theorem deleteNote_idempotent:
  "deleteNote f c i (snd (deleteNote f c i s)) = deleteNote f c i s \<and>
   (id_absent i (stored f c s) \<and> \<not> idb_write_fails f \<longrightarrow>
      fst (deleteNote f c i s) = Inr () \<and>
      stored f c (snd (deleteNote f c i s)) = stored f c s) \<and>
   (\<not> falsy i \<and> \<not> idb_write_fails f \<and> \<not> ls_set_throws f \<longrightarrow>
      fst (deleteNote f c i s) = Inr () \<and>
      stored f c (snd (deleteNote f c i s)) =
        filter (\<lambda>n. JStr (note_id n) \<noteq> i) (stored f c s))"
  using deleteNote_twice [of f c i s] deleteNote_absent [of i f c s]
    deleteNote_removes [of i f c s]
  by blast

theorem deleteNote_idempotent_witness:
  "\<not> falsy (JStr ''note_2'') \<and> \<not> idb_write_fails no_faults \<and> \<not> ls_set_throws no_faults \<and>
   id_absent (JStr ''note_2'')
     (stored no_faults (LocalStorage ls_key)
        (snd (deleteNote no_faults (LocalStorage ls_key) (JStr ''note_2'') storage_abc))) \<and>
   stored no_faults (LocalStorage ls_key)
     (snd (deleteNote no_faults (LocalStorage ls_key) (JStr ''note_2'') storage_abc))
     = [note_a, note_c] \<and>
   stored no_faults (LocalStorage ls_key)
     (snd (deleteNote no_faults (LocalStorage ls_key) (JStr ''note_2'')
        (snd (deleteNote no_faults (LocalStorage ls_key) (JStr ''note_2'') storage_abc))))
     = [note_a, note_c] \<and>
   fst (deleteNote no_faults (LocalStorage ls_key) (JStr ''note_2'')
        (snd (deleteNote no_faults (LocalStorage ls_key) (JStr ''note_2'') storage_abc)))
     = Inr ()"
proof -
  let ?c = "LocalStorage ls_key"
  let ?s1 = "snd (deleteNote no_faults ?c (JStr ''note_2'') storage_abc)"
  have ok: "\<not> falsy (JStr ''note_2'')" "\<not> idb_write_fails no_faults" "\<not> ls_set_throws no_faults"
    by (simp_all add: no_faults_def)
  have xs: "stored no_faults ?c storage_abc = [note_a, note_b, note_c]"
    by (simp add: stored_def storage_abc_def readLS_def no_faults_def)
  have flt: "filter (\<lambda>n. JStr (note_id n) \<noteq> JStr ''note_2'') [note_a, note_b, note_c]
      = [note_a, note_c]"
    by (simp add: note_a_def note_b_def note_c_def)
  have first: "stored no_faults ?c ?s1 = [note_a, note_c]"
    using deleteNote_idempotent [of no_faults ?c "JStr ''note_2''" storage_abc] ok xs flt
    by simp
  have absent: "id_absent (JStr ''note_2'') (stored no_faults ?c ?s1)"
    unfolding first by (simp add: id_absent_def note_a_def note_c_def)
  from ok first absent
    deleteNote_idempotent [of no_faults ?c "JStr ''note_2''" ?s1]
  show ?thesis by simp
qed

section \<open>Failing writes\<close>

lemma createNote_IndexedDB:
  "createNote f t1 t2 t3 sfx IndexedDB s =
     (if idb_write_fails f then (Inl StorageIOError, s)
      else (Inr (new_note t1 t2 t3 sfx),
            s\<lparr>idb_notes := store_put (new_note t1 t2 t3 sfx) (idb_notes s)\<rparr>))"
  by (simp add: createNote_def putIndexed_def Let_def)

lemma createNote_LocalStorage:
  "createNote f t1 t2 t3 sfx (LocalStorage key) s =
     (Inr (new_note t1 t2 t3 sfx),
      writeLS f key (readLS f s key @ [new_note t1 t2 t3 sfx]) s)"
  by (simp add: createNote_def Let_def)

lemma updateNote_IndexedDB_write_fails:
  assumes "idb_write_fails f" "\<not> idb_read_fails f" "k \<noteq> []"
    and "findIndex (\<lambda>n. note_id n = k) (idb_notes s) = Some idx"
  shows "updateNote f now IndexedDB (JStr k) u s = (Inl StorageIOError, s)"
  using assms
  by (simp add: updateNote_def getIndexed_def putIndexed_def find_findIndex Let_def)

lemma updateNote_LocalStorage_set_throws:
  assumes "ls_set_throws f"
  shows "\<exists>r. updateNote f now (LocalStorage key) i u s = (Inr r, s)"
proof (cases i)
  case (JStr k)
  then show ?thesis using assms
    by (cases "findIndex (\<lambda>n. note_id n = k) (readLS f s key)")
       (simp_all add: updateNote_def writeLS_def Let_def)
qed (simp_all add: updateNote_def)

lemma updateNote_not_reached:
  assumes "id_absent i (stored f (LocalStorage key) s)"
  shows "updateNote f now (LocalStorage key) i u s = (Inr None, s)"
proof (cases i)
  case (JStr k)
  with assms have "findIndex (\<lambda>n. note_id n = k) (readLS f s key) = None"
    by (simp add: stored_def id_absent_findIndex)
  with JStr show ?thesis by (simp add: updateNote_def)
qed (simp_all add: updateNote_def)

lemma deleteNote_LocalStorage_set_throws:
  assumes "ls_set_throws f"
  shows "deleteNote f (LocalStorage key) i s = (Inr (), s)"
  using assms by (cases i) (simp_all add: deleteNote_def writeLS_def Let_def)

text \<open>
  Claim C6, as the code has it. Under the IndexedDB variant a failing write request
  rejects \<^verbatim>\<open>createNote\<close>, \<^verbatim>\<open>deleteNote\<close> and (once the note is found) \<^verbatim>\<open>updateNote\<close>,
  the stored data unchanged. Under the localStorage variant \<^verbatim>\<open>writeLS\<close> catches the
  failure and logs it: each of the three operations returns normally, the stored data
  unchanged; \<^verbatim>\<open>createNote\<close> returns the new note and \<^verbatim>\<open>updateNote\<close> the merged
  note of the id (\<^verbatim>\<open>null\<close> only where no stored note has the id), as if they were
  saved.
\<close>

theorem write_failure_outcome:
  "(idb_write_fails f \<longrightarrow>
      createNote f t1 t2 t3 sfx IndexedDB s = (Inl StorageIOError, s) \<and>
      (\<not> falsy i \<longrightarrow> deleteNote f IndexedDB i s = (Inl StorageIOError, s)) \<and>
      (\<forall>k idx. i = JStr k \<and> k \<noteq> [] \<and> \<not> idb_read_fails f \<and>
           findIndex (\<lambda>n. note_id n = k) (idb_notes s) = Some idx \<longrightarrow>
         updateNote f now IndexedDB i u s = (Inl StorageIOError, s))) \<and>
   (ls_set_throws f \<longrightarrow>
      createNote f t1 t2 t3 sfx (LocalStorage key) s = (Inr (new_note t1 t2 t3 sfx), s) \<and>
      deleteNote f (LocalStorage key) i s = (Inr (), s) \<and>
      (\<exists>r. updateNote f now (LocalStorage key) i u s = (Inr r, s)) \<and>
      (\<forall>k idx. i = JStr k \<and> k \<noteq> [] \<and>
           findIndex (\<lambda>n. note_id n = k) (readLS f s key) = Some idx \<longrightarrow>
         updateNote f now (LocalStorage key) i u s =
           (Inr (Some (merge_note (readLS f s key ! idx) u now)), s)) \<and>
      (id_absent i (readLS f s key) \<longrightarrow>
         updateNote f now (LocalStorage key) i u s = (Inr None, s)))"
proof (intro conjI impI allI)
  assume "idb_write_fails f"
  then show "createNote f t1 t2 t3 sfx IndexedDB s = (Inl StorageIOError, s)"
    by (simp add: createNote_IndexedDB)
next
  assume "idb_write_fails f" "\<not> falsy i"
  then show "deleteNote f IndexedDB i s = (Inl StorageIOError, s)"
    by (cases i) (simp_all add: deleteNote_IndexedDB)
next
  fix k idx
  assume "idb_write_fails f"
    and "i = JStr k \<and> k \<noteq> [] \<and> \<not> idb_read_fails f \<and>
           findIndex (\<lambda>n. note_id n = k) (idb_notes s) = Some idx"
  then show "updateNote f now IndexedDB i u s = (Inl StorageIOError, s)"
    by (simp add: updateNote_IndexedDB_write_fails)
next
  assume "ls_set_throws f"
  then show "createNote f t1 t2 t3 sfx (LocalStorage key) s = (Inr (new_note t1 t2 t3 sfx), s)"
    by (simp add: createNote_LocalStorage writeLS_def)
next
  assume "ls_set_throws f"
  then show "deleteNote f (LocalStorage key) i s = (Inr (), s)"
    by (rule deleteNote_LocalStorage_set_throws)
next
  assume "ls_set_throws f"
  then show "\<exists>r. updateNote f now (LocalStorage key) i u s = (Inr r, s)"
    by (rule updateNote_LocalStorage_set_throws)
next
  fix k idx
  assume "ls_set_throws f"
    and "i = JStr k \<and> k \<noteq> [] \<and>
           findIndex (\<lambda>n. note_id n = k) (readLS f s key) = Some idx"
  then show "updateNote f now (LocalStorage key) i u s =
           (Inr (Some (merge_note (readLS f s key ! idx) u now)), s)"
    by (simp add: updateNote_def writeLS_def Let_def)
next
  assume "ls_set_throws f" and "id_absent i (readLS f s key)"
  then have "id_absent i (stored f (LocalStorage key) s)" by (simp add: stored_def)
  from updateNote_not_reached [OF this]
  show "updateNote f now (LocalStorage key) i u s = (Inr None, s)" .
qed

theorem write_failure_outcome_witness:
  "idb_write_fails (no_faults\<lparr>idb_write_fails := True, ls_set_throws := True\<rparr>) \<and>
   ls_set_throws (no_faults\<lparr>idb_write_fails := True, ls_set_throws := True\<rparr>) \<and>
   \<not> falsy (JStr ''note_2'') \<and>
   findIndex (\<lambda>n. note_id n = ''note_2'') (idb_notes storage_abc) = Some 1 \<and>
   createNote (no_faults\<lparr>idb_write_fails := True, ls_set_throws := True\<rparr>) 1000 1000 1000 ''k3x9ab''
     IndexedDB storage_abc = (Inl StorageIOError, storage_abc) \<and>
   deleteNote (no_faults\<lparr>idb_write_fails := True, ls_set_throws := True\<rparr>)
     IndexedDB (JStr ''note_2'') storage_abc = (Inl StorageIOError, storage_abc) \<and>
   updateNote (no_faults\<lparr>idb_write_fails := True, ls_set_throws := True\<rparr>) 50
     IndexedDB (JStr ''note_2'') (no_updates\<lparr>upd_title := Some ''x''\<rparr>) storage_abc
     = (Inl StorageIOError, storage_abc) \<and>
   deleteNote (no_faults\<lparr>idb_write_fails := True, ls_set_throws := True\<rparr>)
     (LocalStorage ls_key) (JStr ''note_2'') storage_abc = (Inr (), storage_abc) \<and>
   createNote (no_faults\<lparr>idb_write_fails := True, ls_set_throws := True\<rparr>) 1000 1000 1000 ''k3x9ab''
     (LocalStorage ls_key) storage_abc = (Inr (new_note 1000 1000 1000 ''k3x9ab''), storage_abc) \<and>
   findIndex (\<lambda>n. note_id n = ''note_2'')
     (readLS (no_faults\<lparr>idb_write_fails := True, ls_set_throws := True\<rparr>) storage_abc ls_key)
     = Some 1 \<and>
   updateNote (no_faults\<lparr>idb_write_fails := True, ls_set_throws := True\<rparr>) 50
     (LocalStorage ls_key) (JStr ''note_2'') (no_updates\<lparr>upd_title := Some ''x''\<rparr>) storage_abc
     = (Inr (Some (note_b\<lparr>title := ''x'', updatedAt := 50\<rparr>)), storage_abc) \<and>
   id_absent (JStr ''note_7'')
     (readLS (no_faults\<lparr>idb_write_fails := True, ls_set_throws := True\<rparr>) storage_abc ls_key) \<and>
   updateNote (no_faults\<lparr>idb_write_fails := True, ls_set_throws := True\<rparr>) 50
     (LocalStorage ls_key) (JStr ''note_7'') (no_updates\<lparr>upd_title := Some ''x''\<rparr>) storage_abc
     = (Inr None, storage_abc)"
proof -
  let ?f = "no_faults\<lparr>idb_write_fails := True, ls_set_throws := True\<rparr>"
  have f: "idb_write_fails ?f" "ls_set_throws ?f" "\<not> idb_read_fails ?f"
    by (simp_all add: no_faults_def)
  have fi: "findIndex (\<lambda>n. note_id n = ''note_2'') (idb_notes storage_abc) = Some 1"
    by (simp add: storage_abc_def note_a_def note_b_def note_c_def)
  have items: "readLS ?f storage_abc ls_key = [note_a, note_b, note_c]"
    by (simp add: readLS_def storage_abc_def no_faults_def)
  have fi_ls: "findIndex (\<lambda>n. note_id n = ''note_2'') [note_a, note_b, note_c] = Some 1"
    by (simp add: note_a_def note_b_def note_c_def)
  have absent: "id_absent (JStr ''note_7'') [note_a, note_b, note_c]"
    by (simp add: id_absent_def note_a_def note_b_def note_c_def)
  from f fi items fi_ls absent
    write_failure_outcome [of ?f 1000 1000 1000 "''k3x9ab''" storage_abc "JStr ''note_2''" 50
                              "no_updates\<lparr>upd_title := Some ''x''\<rparr>" ls_key]
    write_failure_outcome [of ?f 1000 1000 1000 "''k3x9ab''" storage_abc "JStr ''note_7''" 50
                              "no_updates\<lparr>upd_title := Some ''x''\<rparr>" ls_key]
  show ?thesis by (simp add: merge_note_title)
qed

text \<open>
  The claim as the specification words it fails on the localStorage variant: with a
  throwing \<^verbatim>\<open>setItem\<close>, \<^verbatim>\<open>createNote\<close> returns the new note and \<^verbatim>\<open>updateNote\<close>
  the retitled note as if they were saved, \<^verbatim>\<open>deleteNote\<close> returns normally, and the
  stored data is what it was.
\<close>

theorem write_failure_swallowed_counterexample:
  "ls_set_throws (no_faults\<lparr>ls_set_throws := True\<rparr>) \<and>
   createNote (no_faults\<lparr>ls_set_throws := True\<rparr>) 1000 1000 1000 ''k3x9ab''
     (LocalStorage ls_key) storage_abc
     = (Inr (new_note 1000 1000 1000 ''k3x9ab''), storage_abc) \<and>
   updateNote (no_faults\<lparr>ls_set_throws := True\<rparr>) 50
     (LocalStorage ls_key) (JStr ''note_2'') (no_updates\<lparr>upd_title := Some ''x''\<rparr>) storage_abc
     = (Inr (Some (note_b\<lparr>title := ''x'', updatedAt := 50\<rparr>)), storage_abc) \<and>
   deleteNote (no_faults\<lparr>ls_set_throws := True\<rparr>)
     (LocalStorage ls_key) (JStr ''note_2'') storage_abc = (Inr (), storage_abc)"
proof -
  let ?f = "no_faults\<lparr>ls_set_throws := True\<rparr>"
  have f: "ls_set_throws ?f" by (simp add: no_faults_def)
  have items: "readLS ?f storage_abc ls_key = [note_a, note_b, note_c]"
    by (simp add: readLS_def storage_abc_def no_faults_def)
  have fi: "findIndex (\<lambda>n. note_id n = ''note_2'') [note_a, note_b, note_c] = Some 1"
    by (simp add: note_a_def note_b_def note_c_def)
  have "createNote ?f 1000 1000 1000 ''k3x9ab'' (LocalStorage ls_key) storage_abc
     = (Inr (new_note 1000 1000 1000 ''k3x9ab''), storage_abc)"
    using f by (simp add: createNote_LocalStorage writeLS_def)
  moreover have "updateNote ?f 50 (LocalStorage ls_key) (JStr ''note_2'')
       (no_updates\<lparr>upd_title := Some ''x''\<rparr>) storage_abc
     = (Inr (Some (note_b\<lparr>title := ''x'', updatedAt := 50\<rparr>)), storage_abc)"
    using f items fi by (simp add: updateNote_def writeLS_def Let_def merge_note_title)
  moreover have "deleteNote ?f (LocalStorage ls_key) (JStr ''note_2'') storage_abc
     = (Inr (), storage_abc)"
    using f by (rule deleteNote_LocalStorage_set_throws)
  ultimately show ?thesis using f by simp
qed

section \<open>Creating a note\<close>

lemma set_insert_record: "set (insert_record v rs) = insert v (set rs)"
  by (induction rs) auto

lemma in_store_put: "v \<in> set (store_put v rs)"
proof (cases "findIndex (\<lambda>r. note_id r = note_id v) rs")
  case None
  then show ?thesis by (simp add: store_put_def set_insert_record)
next
  case (Some idx)
  then have "idx < length rs" by (auto dest: findIndex_Some)
  with Some show ?thesis by (simp add: store_put_def set_update_memI)
qed

text \<open>
  What holds of \<^verbatim>\<open>createNote\<close> whatever the clock does: the title and content of the
  new note, which reading of the clock each timestamp is, and, when the backend answers,
  that \<^verbatim>\<open>listNotes\<close> right after the call has the note.
\<close>

lemma createNote_listed:
  assumes "\<not> idb_read_fails f" "\<not> idb_write_fails f" "\<not> ls_get_throws f" "\<not> ls_set_throws f"
  shows "\<exists>n s' ys. createNote f t_id t_created t_updated sfx c s = (Inr n, s') \<and>
           title n = ''Untitled'' \<and> content n = [] \<and>
           createdAt n = t_created \<and> updatedAt n = t_updated \<and>
           listNotes f c s' = (Inr ys, s') \<and> n \<in> set ys"
proof (cases c)
  case IndexedDB
  with assms show ?thesis
    by (simp add: createNote_IndexedDB listNotes_def getAllIndexed_def set_array_sort
          in_store_put new_note_def)
next
  case (LocalStorage key)
  with assms show ?thesis
    by (simp add: createNote_LocalStorage listNotes_def set_array_sort readLS_writeLS
          new_note_def)
qed

text \<open>
  Claim C2, at the input where it fails. \<^verbatim>\<open>createNote\<close> reads \<^verbatim>\<open>Date.now()\<close> once
  for \<^verbatim>\<open>createdAt\<close> and once more for \<^verbatim>\<open>updatedAt\<close>; when the clock moves from
  1000 to 1001 between the two readings, the note that is returned and stored has
  \<^verbatim>\<open>createdAt\<close> 1000 and \<^verbatim>\<open>updatedAt\<close> 1001.
\<close>

theorem createNote_clock_tick:
  "createNote no_faults 1000 1000 1001 ''k3x9ab'' (LocalStorage ls_key) empty_storage =
     (Inr \<lparr>note_id = ''note_1000_k3x9ab'', title = ''Untitled'', content = [],
           createdAt = 1000, updatedAt = 1001\<rparr>,
      \<lparr>idb_notes = [],
       localStorage = no_items(ls_key \<mapsto>
         NotesJson [\<lparr>note_id = ''note_1000_k3x9ab'', title = ''Untitled'', content = [],
           createdAt = 1000, updatedAt = 1001\<rparr>])\<rparr>)"
proof -
  have "num_str 1000 = ''1000''" by code_simp
  then show ?thesis
    by (simp add: createNote_LocalStorage new_note_def writeLS_def readLS_def no_faults_def
          empty_storage_def no_items_def)
qed

section \<open>Opening the storage\<close>

lemma store_put_Nil: "store_put v [] = [v]"
  by (simp add: store_put_def)

text \<open>
  \<^verbatim>\<open>initStorage\<close> on the IndexedDB path: an empty object store gets the one sample
  note, a store that has a note is left as it is.
\<close>

lemma initStorage_IndexedDB:
  assumes "\<not> idb_missing f" "\<not> idb_open_fails f" "\<not> idb_read_fails f" "\<not> idb_write_fails f"
  shows "initStorage f t1 t2 t3 t4 t5 t6 s =
     (IndexedDB, if idb_notes s = [] then s\<lparr>idb_notes := [seedSample t1 t2 t3]\<rparr> else s)"
  using assms
  by (simp add: initStorage_def getAllIndexed_def putIndexed_def store_put_Nil)

text \<open>
  On the localStorage path the sample note is written when the key is missing or holds
  the empty string, and in no other case: not once a note is stored, and not either when
  the key holds text that reads as an empty collection.
\<close>

lemma initLocalStorage_cases:
  assumes "\<not> ls_get_throws f" "\<not> ls_set_throws f"
  shows "initLocalStorage f t4 t5 t6 s =
     (LocalStorage ''notes_db__notes'',
      if localStorage s ''notes_db__notes'' = None \<or>
         localStorage s ''notes_db__notes'' = Some EmptyString
      then s\<lparr>localStorage := (localStorage s)
              (''notes_db__notes'' \<mapsto> NotesJson [seedSample t4 t5 t6])\<rparr>
      else s)"
  using assms by (simp add: initLocalStorage_def Let_def)

lemma initLocalStorage_no_reseed:
  "readLS f s ''notes_db__notes'' \<noteq> [] \<Longrightarrow>
   initLocalStorage f t4 t5 t6 s = (LocalStorage ''notes_db__notes'', s)"
  by (auto simp: initLocalStorage_def readLS_def Let_def split: if_splits)

text \<open>
  Claim C1, at the input where it fails. IndexedDB is not available and the key of
  localStorage holds \<^verbatim>\<open>[]\<close>, as \<^verbatim>\<open>deleteNote\<close> leaves it when the last note is
  deleted: the collection is empty at open time, \<^verbatim>\<open>initStorage\<close> writes nothing, and
  the collection is empty afterwards. The same happens when the key holds text that
  \<^verbatim>\<open>JSON.parse\<close> rejects.
\<close>

theorem initStorage_empty_array_unseeded:
  "stored no_faults (LocalStorage ls_key) storage_emptied = [] \<and>
   initStorage (no_faults\<lparr>idb_missing := True\<rparr>) 1000 1000 1000 1000 1000 1000 storage_emptied
     = (LocalStorage ls_key, storage_emptied) \<and>
   stored no_faults (LocalStorage ls_key) storage_garbled = [] \<and>
   initStorage (no_faults\<lparr>idb_missing := True\<rparr>) 1000 1000 1000 1000 1000 1000 storage_garbled
     = (LocalStorage ls_key, storage_garbled)"
  by (simp add: stored_def readLS_def no_faults_def initStorage_def initLocalStorage_def
        ls_key_def storage_emptied_def storage_garbled_def no_items_def Let_def)

section \<open>Sequences of calls\<close>

lemma as_created_filter: "as_created lg xs \<Longrightarrow> as_created lg (filter P xs)"
  by (auto simp: as_created_def distinct_map_filter list_all_iff)

lemma as_created_Nil: "as_created lg []"
  by (simp add: as_created_def)

lemma as_created_update:
  assumes "as_created lg xs" "idx < length xs"
    "note_id m = note_id (xs ! idx)" "createdAt m = createdAt (xs ! idx)"
  shows "as_created lg (xs[idx := m])"
proof -
  from assms(2,3) have ids: "map note_id (xs[idx := m]) = map note_id xs"
    by (simp add: map_update list_update_same_conv)
  have "lg (note_id n) = Some (createdAt n)" if "n \<in> set (xs[idx := m])" for n
  proof -
    from that have "n = m \<or> n \<in> set xs" by (auto dest: set_update_subset_insert [THEN subsetD])
    moreover from assms have "lg (note_id m) = Some (createdAt m)"
      by (auto simp: as_created_def list_all_iff)
    ultimately show ?thesis using assms(1) by (auto simp: as_created_def list_all_iff)
  qed
  with assms(1) ids show ?thesis by (simp add: as_created_def list_all_iff)
qed

lemma as_created_new:
  assumes "as_created lg xs" "list_all (\<lambda>n. note_id n \<noteq> note_id v) xs"
    "set ys = insert v (set xs)" "distinct (map note_id ys)"
  shows "as_created (lg(note_id v \<mapsto> createdAt v)) ys"
  using assms by (auto simp: as_created_def list_all_iff)

lemma as_created_other:
  assumes "as_created lg xs" "list_all (\<lambda>n. note_id n \<noteq> k) xs"
  shows "as_created (lg(k \<mapsto> t)) xs"
  using assms by (auto simp: as_created_def list_all_iff)

lemma distinct_insert_record:
  "distinct (map note_id rs) \<Longrightarrow> list_all (\<lambda>n. note_id n \<noteq> note_id v) rs \<Longrightarrow>
   distinct (map note_id (insert_record v rs))"
  by (induction rs) (auto simp: set_insert_record list_all_iff)

lemma store_put_fresh:
  "list_all (\<lambda>n. note_id n \<noteq> note_id v) rs \<Longrightarrow> store_put v rs = insert_record v rs"
proof -
  assume "list_all (\<lambda>n. note_id n \<noteq> note_id v) rs"
  then have "findIndex (\<lambda>r. note_id r = note_id v) rs = None"
    by (auto simp: findIndex_None_iff list_all_iff)
  then show ?thesis by (simp add: store_put_def)
qed

lemma step_Create:
  assumes inv: "as_created lg (stored f c s)"
    and fresh: "list_all (\<lambda>n. note_id n \<noteq> note_id (new_note t1 t2 t3 sfx)) (stored f c s)"
  shows "as_created (fst (step f c (Create t1 t2 t3 sfx) (lg, s)))
           (stored f c (snd (step f c (Create t1 t2 t3 sfx) (lg, s))))"
proof (cases c)
  case IndexedDB
  let ?n = "new_note t1 t2 t3 sfx"
  show ?thesis
  proof (cases "idb_write_fails f")
    case True
    with IndexedDB inv show ?thesis by (simp add: createNote_IndexedDB)
  next
    case False
    from inv fresh IndexedDB
    have "as_created (lg(note_id ?n \<mapsto> createdAt ?n)) (insert_record ?n (idb_notes s))"
      by (intro as_created_new [where xs = "idb_notes s"])
         (simp_all add: stored_def set_insert_record distinct_insert_record as_created_def)
    with False IndexedDB fresh show ?thesis
      by (simp add: createNote_IndexedDB stored_def store_put_fresh)
  qed
next
  case (LocalStorage key)
  let ?n = "new_note t1 t2 t3 sfx"
  let ?xs = "readLS f s key"
  from inv fresh LocalStorage
  have 1: "as_created (lg(note_id ?n \<mapsto> createdAt ?n)) (?xs @ [?n])"
    by (intro as_created_new [where xs = ?xs])
       (auto simp: stored_def as_created_def list_all_iff)
  from inv fresh LocalStorage
  have 2: "as_created (lg(note_id ?n \<mapsto> createdAt ?n)) ?xs"
    by (intro as_created_other) (simp_all add: stored_def)
  from 1 2 LocalStorage show ?thesis
    by (simp add: createNote_LocalStorage stored_def readLS_writeLS as_created_Nil)
qed

lemma step_Update:
  assumes inv: "as_created lg (stored f c s)"
    and u: "upd_id u = None" "upd_createdAt u = None"
  shows "as_created (fst (step f c (Update i u now) (lg, s)))
           (stored f c (snd (step f c (Update i u now) (lg, s))))"
proof (cases i)
  case (JStr k)
  from updateNote_stored [OF u(1), of f c now k s]
  show ?thesis
  proof
    assume "stored f c (snd (updateNote f now c (JStr k) u s)) = stored f c s"
    with inv JStr show ?thesis by simp
  next
    assume "\<exists>idx. findIndex (\<lambda>n. note_id n = k) (stored f c s) = Some idx \<and>
        stored f c (snd (updateNote f now c (JStr k) u s)) =
          (stored f c s)[idx := merge_note (stored f c s ! idx) u now]"
    then obtain idx where fi: "findIndex (\<lambda>n. note_id n = k) (stored f c s) = Some idx"
      and eq: "stored f c (snd (updateNote f now c (JStr k) u s)) =
          (stored f c s)[idx := merge_note (stored f c s ! idx) u now]" by blast
    from fi have "idx < length (stored f c s)" by (auto dest: findIndex_Some)
    with inv u have "as_created lg ((stored f c s)[idx := merge_note (stored f c s ! idx) u now])"
      by (intro as_created_update) (simp_all add: merge_note_keeps)
    with eq JStr show ?thesis by simp
  qed
qed (use inv in \<open>simp_all add: updateNote_def\<close>)

lemma filter_True_ex: "ys = xs \<Longrightarrow> \<exists>P. ys = filter P xs"
  by (rule exI [of _ "\<lambda>_. True"]) simp

lemma deleteNote_stored_filter:
  "\<exists>P. stored f c (snd (deleteNote f c i s)) = filter P (stored f c s)"
proof (cases "falsy i")
  case True
  then have "deleteNote f c i s = (Inr (), s)"
    by (cases i) (simp_all add: deleteNote_def)
  then show ?thesis by (simp add: filter_True_ex)
next
  case False
  then obtain k where k: "i = JStr k" "k \<noteq> []" by (cases i) simp_all
  show ?thesis
  proof (cases c)
    case IndexedDB
    show ?thesis
    proof (cases "idb_write_fails f")
      case True
      with k IndexedDB show ?thesis by (simp add: deleteNote_IndexedDB filter_True_ex)
    next
      case False
      with k IndexedDB show ?thesis by (auto simp: deleteNote_IndexedDB stored_def)
    qed
  next
    case (LocalStorage key)
    show ?thesis
    proof (cases "ls_get_throws f \<or> ls_set_throws f")
      case True
      with k LocalStorage
      have "stored f c (snd (deleteNote f c i s)) = stored f c s"
        by (auto simp: deleteNote_LocalStorage stored_def readLS_writeLS readLS_throws)
      then show ?thesis by (rule filter_True_ex)
    next
      case False
      with k LocalStorage show ?thesis
        by (auto simp: deleteNote_LocalStorage stored_def readLS_writeLS)
    qed
  qed
qed

lemma step_Delete:
  assumes inv: "as_created lg (stored f c s)"
  shows "as_created (fst (step f c (Delete i) (lg, s)))
           (stored f c (snd (step f c (Delete i) (lg, s))))"
proof -
  from deleteNote_stored_filter [of f c i s]
  obtain P where "stored f c (snd (deleteNote f c i s)) = filter P (stored f c s)" by blast
  with inv show ?thesis by (simp add: as_created_filter)
qed

lemma snd_step:
  "snd (step f c x (lg, s)) =
     (case x of
        Create t1 t2 t3 sfx \<Rightarrow> snd (createNote f t1 t2 t3 sfx c s)
      | Update i u now \<Rightarrow> snd (updateNote f now c i u s)
      | Delete i \<Rightarrow> snd (deleteNote f c i s))"
  by (cases x) (auto split: prod.splits sum.splits)

text \<open>
  Claim C5, as the code has it. From a state in which the stored notes have unique ids
  and are as the creations made them, every run of \<^verbatim>\<open>createNote\<close>, \<^verbatim>\<open>updateNote\<close>
  and \<^verbatim>\<open>deleteNote\<close> calls in which no update supplies an \<^verbatim>\<open>id\<close> or a
  \<^verbatim>\<open>createdAt\<close> field and every \<^verbatim>\<open>createNote\<close> draws an id that no stored note has
  ends in such a state: ids unique, and each stored note with the id and the
  \<^verbatim>\<open>createdAt\<close> it was given when it was created.
\<close>

theorem run_keeps_as_created:
  assumes "as_created lg (stored f c s)" and "admissible f c ops s"
  shows "as_created (fst (run f c ops (lg, s))) (stored f c (snd (run f c ops (lg, s))))"
  using assms
proof (induction ops arbitrary: lg s)
  case Nil
  then show ?case by simp
next
  case (Cons x ops)
  obtain lg' s' where st: "step f c x (lg, s) = (lg', s')" by (cases "step f c x (lg, s)")
  have inv': "as_created lg' (stored f c s')"
  proof (cases x)
    case (Create t1 t2 t3 sfx)
    with Cons.prems step_Create [of lg f c s t1 t2 t3 sfx] st show ?thesis by simp
  next
    case (Update i u now)
    with Cons.prems step_Update [of lg f c s u i now] st show ?thesis by simp
  next
    case (Delete i)
    with Cons.prems step_Delete [of lg f c s i] st show ?thesis by simp
  qed
  from snd_step [of f c x lg s] st have s': "s' =
     (case x of
        Create t1 t2 t3 sfx \<Rightarrow> snd (createNote f t1 t2 t3 sfx c s)
      | Update i u now \<Rightarrow> snd (updateNote f now c i u s)
      | Delete i \<Rightarrow> snd (deleteNote f c i s))" by simp
  from Cons.prems(2) have adm': "admissible f c ops s'"
    unfolding s' by (cases x) simp_all
  from Cons.IH [OF inv' adm'] st show ?case by simp
qed


theorem run_keeps_as_created_witness:
  "as_created no_creations (stored no_faults IndexedDB empty_storage) \<and>
   admissible no_faults IndexedDB
     [Create 1000 1000 1000 ''aaa111'',
      Update (JStr ''note_1000_aaa111'') (no_updates\<lparr>upd_title := Some ''Plans''\<rparr>) 2000,
      Create 3000 3000 3000 ''bbb222'',
      Delete (JStr ''note_3000_bbb222'')] empty_storage \<and>
   as_created
     (fst (run no_faults IndexedDB
        [Create 1000 1000 1000 ''aaa111'',
         Update (JStr ''note_1000_aaa111'') (no_updates\<lparr>upd_title := Some ''Plans''\<rparr>) 2000,
         Create 3000 3000 3000 ''bbb222'',
         Delete (JStr ''note_3000_bbb222'')] (no_creations, empty_storage)))
     (stored no_faults IndexedDB (snd (run no_faults IndexedDB
        [Create 1000 1000 1000 ''aaa111'',
         Update (JStr ''note_1000_aaa111'') (no_updates\<lparr>upd_title := Some ''Plans''\<rparr>) 2000,
         Create 3000 3000 3000 ''bbb222'',
         Delete (JStr ''note_3000_bbb222'')] (no_creations, empty_storage)))) \<and>
   stored no_faults IndexedDB (snd (run no_faults IndexedDB
        [Create 1000 1000 1000 ''aaa111'',
         Update (JStr ''note_1000_aaa111'') (no_updates\<lparr>upd_title := Some ''Plans''\<rparr>) 2000,
         Create 3000 3000 3000 ''bbb222'',
         Delete (JStr ''note_3000_bbb222'')] (no_creations, empty_storage)))
     = [\<lparr>note_id = ''note_1000_aaa111'', title = ''Plans'', content = [],
          createdAt = 1000, updatedAt = 2000\<rparr>]"
proof -
  let ?ops = "[Create 1000 1000 1000 ''aaa111'',
      Update (JStr ''note_1000_aaa111'') (no_updates\<lparr>upd_title := Some ''Plans''\<rparr>) 2000,
      Create 3000 3000 3000 ''bbb222'',
      Delete (JStr ''note_3000_bbb222'')]"
  have start: "as_created no_creations (stored no_faults IndexedDB empty_storage)"
    by (simp add: stored_def empty_storage_def as_created_def)
  have adm: "admissible no_faults IndexedDB ?ops empty_storage"
    by code_simp
  have final: "stored no_faults IndexedDB (snd (run no_faults IndexedDB ?ops (no_creations, empty_storage)))
     = [\<lparr>note_id = ''note_1000_aaa111'', title = ''Plans'', content = [],
          createdAt = 1000, updatedAt = 2000\<rparr>]"
    by code_simp
  from start adm final run_keeps_as_created [OF start adm] show ?thesis by simp
qed

text \<open>
  The claim as the specification words it, for updates with arbitrary fields, fails:
  \<^verbatim>\<open>updateNote\<close> merges whatever the updates hold, so an update that supplies
  \<^verbatim>\<open>createdAt\<close> overwrites the value the note was created with.
\<close>

theorem update_overwrites_createdAt_counterexample:
  "fst (run no_faults (LocalStorage ls_key)
          [Create 1000 1000 1000 ''aaa111'',
           Update (JStr ''note_1000_aaa111'') (no_updates\<lparr>upd_createdAt := Some 0\<rparr>) 2000]
          (no_creations, empty_storage)) ''note_1000_aaa111'' = Some 1000 \<and>
   stored no_faults (LocalStorage ls_key) (snd (run no_faults (LocalStorage ls_key)
          [Create 1000 1000 1000 ''aaa111'',
           Update (JStr ''note_1000_aaa111'') (no_updates\<lparr>upd_createdAt := Some 0\<rparr>) 2000]
          (no_creations, empty_storage)))
     = [\<lparr>note_id = ''note_1000_aaa111'', title = ''Untitled'', content = [],
          createdAt = 0, updatedAt = 2000\<rparr>] \<and>
   \<not> as_created
       (fst (run no_faults (LocalStorage ls_key)
          [Create 1000 1000 1000 ''aaa111'',
           Update (JStr ''note_1000_aaa111'') (no_updates\<lparr>upd_createdAt := Some 0\<rparr>) 2000]
          (no_creations, empty_storage)))
       (stored no_faults (LocalStorage ls_key) (snd (run no_faults (LocalStorage ls_key)
          [Create 1000 1000 1000 ''aaa111'',
           Update (JStr ''note_1000_aaa111'') (no_updates\<lparr>upd_createdAt := Some 0\<rparr>) 2000]
          (no_creations, empty_storage))))"
  by code_simp

end
